theory Spec2Isabelle
  imports Complex_Main "HOL-Library.Product_Lexorder"
begin

section \<open>Text helpers of \<^verbatim>\<open>convert_statement.py\<close>\<close>

text \<open>
  Python strings are modelled as \<^typ>\<open>string\<close>; a \<^typ>\<open>char\<close> stands for a code point
  below 256. On that range \<^verbatim>\<open>str.strip()\<close> and the regular expression class
  \<^verbatim>\<open>\s\<close> use the same whitespace test (\<^verbatim>\<open>str.isspace\<close>), and \<^verbatim>\<open>\d\<close> is the
  ten ASCII digits.
\<close>

definition isspace :: "char \<Rightarrow> bool" where
  "isspace c = (c \<in> set [CHR 0x09, CHR 0x0A, CHR 0x0B, CHR 0x0C, CHR 0x0D,
                           CHR 0x1C, CHR 0x1D, CHR 0x1E, CHR 0x1F, CHR 0x20,
                           CHR 0x85, CHR 0xA0])"

definition isdigit :: "char \<Rightarrow> bool" where
  "isdigit c = (c \<in> set ''0123456789'')"

text \<open>\<^verbatim>\<open>s.strip()\<close>: whitespace is dropped at both ends.\<close>

definition lstrip :: "string \<Rightarrow> string" where
  "lstrip s = dropWhile isspace s"

definition rstrip :: "string \<Rightarrow> string" where
  "rstrip s = rev (dropWhile isspace (rev s))"

definition strip :: "string \<Rightarrow> string" where
  "strip s = rstrip (lstrip s)"

text \<open>\<^verbatim>\<open>s.replace(a, b)\<close> for a one-character \<^verbatim>\<open>a\<close>.\<close>

definition replace :: "char \<Rightarrow> string \<Rightarrow> string \<Rightarrow> string" where
  "replace a b s = concat (map (\<lambda>c. if c = a then b else [c]) s)"

text \<open>\<^verbatim>\<open>sep.join(xs)\<close>.\<close>

fun join :: "string \<Rightarrow> string list \<Rightarrow> string" where
  "join sep [] = []"
| "join sep [x] = x"
| "join sep (x # y # ys) = x @ sep @ join sep (y # ys)"

text \<open>
  \<^verbatim>\<open>re.sub(r"\s+", " ", text)\<close>: scanning from the left, every maximal run of
  whitespace is replaced by one space.
\<close>

function sub_spaces :: "string \<Rightarrow> string" where
  "sub_spaces [] = []"
| "sub_spaces (c # cs) =
     (if isspace c then CHR '' '' # sub_spaces (dropWhile isspace cs)
      else c # sub_spaces cs)"
  by pat_completeness auto
termination
  by (relation "measure length") (auto simp: length_dropWhile_le less_Suc_eq_le)

text \<open>\<^verbatim>\<open>_normalise_whitespace\<close> (an Isabelle name cannot start with an underscore).\<close>

definition normalise_whitespace :: "string \<Rightarrow> string" where
  "normalise_whitespace text0 =
     (let text1 = replace CHR ''~'' '' '' text0;
          text2 = sub_spaces text1
      in strip text2)"

subsection \<open>Regular expressions \<^verbatim>\<open>DATE_RE\<close> and \<^verbatim>\<open>TIME_RE\<close>\<close>

text \<open>
  Both patterns are sequences of single-character atoms: \<^verbatim>\<open>\d\<close> or a literal.
  \<^verbatim>\<open>fullmatch\<close> succeeds when the whole string matches atom by atom.
\<close>

datatype atom = Digit | Lit char

fun atom_match :: "atom \<Rightarrow> char \<Rightarrow> bool" where
  "atom_match Digit c = isdigit c"
| "atom_match (Lit a) c = (c = a)"

definition fullmatch :: "atom list \<Rightarrow> string \<Rightarrow> bool" where
  "fullmatch pat s = list_all2 atom_match pat s"

definition DATE_RE :: "atom list" where
  "DATE_RE = [Digit, Digit, Lit CHR ''/'', Digit, Digit, Lit CHR ''/'', Digit, Digit]"

definition TIME_RE :: "atom list" where
  "TIME_RE = [Digit, Digit, Lit CHR '':'', Digit, Digit]"

subsection \<open>Amount parsing\<close>

text \<open>
  \<^verbatim>\<open>decimal.Decimal(str)\<close> of the standard library: surrounding whitespace is
  stripped and underscores are removed; then an optional sign is followed by digits with
  an optional fraction and an optional exponent, or by \<^verbatim>\<open>Inf\<close>/\<^verbatim>\<open>Infinity\<close>, or by
  \<^verbatim>\<open>NaN\<close>/\<^verbatim>\<open>sNaN\<close> with optional diagnostic digits (letters in either case). Any
  other string raises \<^verbatim>\<open>InvalidOperation\<close>. \<^verbatim>\<open>float(d)\<close> raises \<^verbatim>\<open>ValueError\<close>
  on a signalling NaN. The float is kept as the exact rational value of the decimal:
  rounding to binary64, overflow to infinity and the sign of zero are not modelled.
\<close>

datatype exn = InvalidOperation | ValueError

datatype decimal =
    Finite bool nat int
  | Infinity bool
  | QNaN
  | SNaN

datatype pyfloat = Float rat | FInf bool | FNaN

definition digit_val :: "char \<Rightarrow> nat" where
  "digit_val c = of_char c - of_char CHR ''0''"

definition digits_val :: "string \<Rightarrow> nat" where
  "digits_val ds = foldl (\<lambda>n c. 10 * n + digit_val c) 0 ds"

definition lower :: "char \<Rightarrow> char" where
  "lower c =
     (let n = (of_char c :: nat)
      in if 65 \<le> n \<and> n \<le> 90 then char_of (n + 32) else c)"

definition take_sign :: "string \<Rightarrow> bool \<times> string" where
  "take_sign s =
     (case s of
        [] \<Rightarrow> (False, s)
      | c # cs \<Rightarrow>
          if c = CHR ''-'' then (True, cs)
          else if c = CHR ''+'' then (False, cs)
          else (False, s))"

definition is_nan_literal :: "string \<Rightarrow> string \<Rightarrow> bool" where
  "is_nan_literal name s =
     (take (length name) (map lower s) = name \<and> list_all isdigit (drop (length name) s))"

definition parse_number :: "bool \<Rightarrow> string \<Rightarrow> exn + decimal" where
  "parse_number neg s =
     (let intpart = takeWhile isdigit s;
          r1 = dropWhile isdigit s;
          has_frac = (r1 \<noteq> [] \<and> hd r1 = CHR ''.'');
          frac = (if has_frac then takeWhile isdigit (tl r1) else []);
          r2 = (if has_frac then dropWhile isdigit (tl r1) else r1);
          coeff = digits_val (intpart @ frac)
      in if intpart = [] \<and> frac = [] then Inl InvalidOperation
         else if r2 = [] then Inr (Finite neg coeff (- int (length frac)))
         else if lower (hd r2) = CHR ''e'' then
           (let (eneg, ds) = take_sign (tl r2)
            in if ds \<noteq> [] \<and> list_all isdigit ds then
                 Inr (Finite neg coeff
                        ((if eneg then - int (digits_val ds) else int (digits_val ds))
                          - int (length frac)))
               else Inl InvalidOperation)
         else Inl InvalidOperation)"

definition Decimal :: "string \<Rightarrow> exn + decimal" where
  "Decimal v =
     (let s = filter (\<lambda>c. c \<noteq> CHR ''_'') (strip v);
          (neg, r) = take_sign s
      in if map lower r = ''inf'' \<or> map lower r = ''infinity'' then Inr (Infinity neg)
         else if is_nan_literal ''nan'' r then Inr QNaN
         else if is_nan_literal ''snan'' r then Inr SNaN
         else parse_number neg r)"

fun float_of_decimal :: "decimal \<Rightarrow> exn + pyfloat" where
  "float_of_decimal (Finite neg c e) =
     Inr (Float ((if neg then - 1 else 1) * of_nat c *
                 (if 0 \<le> e then 10 ^ nat e else 1 / 10 ^ nat (- e))))"
| "float_of_decimal (Infinity neg) = Inr (FInf neg)"
| "float_of_decimal QNaN = Inr FNaN"
| "float_of_decimal SNaN = Inl ValueError"

text \<open>
  \<^verbatim>\<open>_parse_amount\<close>. The result is \<open>Inl e\<close> when exception \<open>e\<close> leaves the function,
  \<open>Inr None\<close> for Python's \<^verbatim>\<open>None\<close>. The handler catches \<^verbatim>\<open>InvalidOperation\<close> and
  \<^verbatim>\<open>ValueError\<close>.
\<close>

definition parse_amount :: "string \<Rightarrow> exn + pyfloat option" where
  "parse_amount value0 =
     (let value1 = strip value0
      in if value1 = [] then Inr None
         else
           (let value2 = replace CHR '','' '''' value1
            in case (case Decimal value2 of Inl e \<Rightarrow> Inl e | Inr d \<Rightarrow> float_of_decimal d) of
                 Inr f \<Rightarrow> Inr (Some f)
               | Inl e \<Rightarrow> if e \<in> set [InvalidOperation, ValueError] then Inr None else Inl e))"

section \<open>The row reconstructor\<close>

subsection \<open>Data\<close>

text \<open>
  A word of \<^verbatim>\<open>extract_words\<close> (keys \<^verbatim>\<open>text\<close>, \<^verbatim>\<open>x0\<close>, \<^verbatim>\<open>top\<close>), a line of the
  grouping loop (keys \<^verbatim>\<open>top\<close>, \<^verbatim>\<open>words\<close>) and a record of the statement. Positions
  are exact rationals. The three amount columns hold text while a page is scanned and
  parsed amounts in the returned frame, hence the type parameter.
\<close>

record word =
  word_text :: string
  word_x0 :: rat
  word_top :: rat

record line =
  line_top :: rat
  words :: "word list"

record 'a statement_record =
  Date :: string
  Time :: string
  Description :: string
  Withdrawal :: 'a
  Deposit :: 'a
  Balance :: 'a
  Branch :: string
  Page :: nat

definition WITHDRAWAL_RANGE :: "rat \<times> rat" where
  "WITHDRAWAL_RANGE = (340, 420)"

definition DEPOSIT_RANGE :: "rat \<times> rat" where
  "DEPOSIT_RANGE = (420, 470)"

definition BALANCE_RANGE :: "rat \<times> rat" where
  "BALANCE_RANGE = (470, 540)"

definition BRANCH_MIN_X :: rat where
  "BRANCH_MIN_X = 530"

definition in_withdrawal :: "rat \<Rightarrow> bool" where
  "in_withdrawal x = (fst WITHDRAWAL_RANGE \<le> x \<and> x \<le> snd WITHDRAWAL_RANGE)"

definition in_deposit :: "rat \<Rightarrow> bool" where
  "in_deposit x = (fst DEPOSIT_RANGE < x \<and> x \<le> snd DEPOSIT_RANGE)"

definition in_balance :: "rat \<Rightarrow> bool" where
  "in_balance x = (fst BALANCE_RANGE < x \<and> x \<le> snd BALANCE_RANGE)"

text \<open>The dictionary literal that opens a transaction or a summary.\<close>

definition new_record :: "string \<Rightarrow> nat \<Rightarrow> string statement_record" where
  "new_record date page_idx =
     \<lparr>Date = date, Time = [], Description = [], Withdrawal = [], Deposit = [],
      Balance = [], Branch = [], Page = page_idx\<rparr>"

subsection \<open>Grouping words into lines\<close>

text \<open>
  The loop over the sorted words: a word opens a line when there is none yet or its
  \<^verbatim>\<open>top\<close> is more than 1.5 away from the \<^verbatim>\<open>top\<close> stored in the last line;
  otherwise it is appended to the last line's words.
\<close>

definition group_word :: "word \<Rightarrow> line list \<Rightarrow> line list" where
  "group_word word lines =
     (if lines = [] \<or> \<bar>word_top word - line_top (last lines)\<bar> > 3 / 2
      then lines @ [\<lparr>line_top = word_top word, words = [word]\<rparr>]
      else butlast lines @ [(last lines)\<lparr>words := words (last lines) @ [word]\<rparr>])"

definition group_lines :: "word list \<Rightarrow> line list" where
  "group_lines ws = fold group_word ws []"

subsection \<open>Scanning one line\<close>

text \<open>The body of the loop over the words after the date (source lines 76 to 88).\<close>

fun opening_word ::
  "word \<Rightarrow> string statement_record \<times> string list \<Rightarrow> string statement_record \<times> string list"
where
  "opening_word word (current, description_parts) =
     (let x = word_x0 word; t = word_text word
      in if in_withdrawal x then (current\<lparr>Withdrawal := t\<rparr>, description_parts)
         else if in_deposit x then (current\<lparr>Deposit := t\<rparr>, description_parts)
         else if in_balance x then (current\<lparr>Balance := t\<rparr>, description_parts)
         else if x > BRANCH_MIN_X then
           (current\<lparr>Branch := strip (Branch current @ '' '' @ t)\<rparr>, description_parts)
         else (current, description_parts @ [t]))"

text \<open>The body of the loop over the words of a continuation line (lines 121 to 133).\<close>

fun continuation_word ::
  "word \<Rightarrow> string statement_record \<times> string list \<Rightarrow> string statement_record \<times> string list"
where
  "continuation_word word (current, extra_desc) =
     (let x = word_x0 word; t = word_text word
      in if in_withdrawal x \<and> Withdrawal current = [] then
           (current\<lparr>Withdrawal := t\<rparr>, extra_desc)
         else if in_deposit x \<and> Deposit current = [] then
           (current\<lparr>Deposit := t\<rparr>, extra_desc)
         else if in_balance x \<and> Balance current = [] then
           (current\<lparr>Balance := t\<rparr>, extra_desc)
         else if x > BRANCH_MIN_X then
           (current\<lparr>Branch := strip (Branch current @ '' '' @ t)\<rparr>, extra_desc)
         else (current, extra_desc @ [t]))"

text \<open>
  The state of the scan of a page: the records appended so far and the open record
  (\<^verbatim>\<open>current\<close>, \<open>None\<close> for Python's \<^verbatim>\<open>None\<close>; an open record is a dictionary with
  eight keys, so \<^verbatim>\<open>if current:\<close> tests for \<^verbatim>\<open>None\<close> only).
\<close>

type_synonym scan = "string statement_record list \<times> string statement_record option"

definition close_current :: "scan \<Rightarrow> string statement_record list" where
  "close_current st = (case snd st of None \<Rightarrow> fst st | Some c \<Rightarrow> fst st @ [c])"

text \<open>A line led by a date (lines 62 to 89).\<close>

definition date_line :: "nat \<Rightarrow> word list \<Rightarrow> scan \<Rightarrow> scan" where
  "date_line page_idx line_words st =
     (let records = close_current st;
          current = new_record (word_text (hd line_words)) page_idx;
          (current1, description_parts) = fold opening_word (tl line_words) (current, [])
      in (records,
          Some (current1\<lparr>Description := normalise_whitespace (join '' '' description_parts)\<rparr>)))"

text \<open>A line led by \<^verbatim>\<open>Total\<close> (lines 90 to 114).\<close>

definition total_line :: "nat \<Rightarrow> string list \<Rightarrow> scan \<Rightarrow> scan" where
  "total_line page_idx texts st =
     (let records = close_current st;
          summary = new_record [] page_idx;
          summary1 =
            (if length texts \<ge> 4 \<and> texts ! 1 \<in> set [''Withdrawal'', ''Deposit''] then
               (let count = texts ! 2;
                    amount = texts ! 3;
                    summary0 = summary\<lparr>Description :=
                      ''Total '' @ texts ! 1 @ '' (count: '' @ count @ '')''\<rparr>
                in if texts ! 1 = ''Withdrawal'' then summary0\<lparr>Withdrawal := amount\<rparr>
                   else summary0\<lparr>Deposit := amount\<rparr>)
             else summary\<lparr>Description := normalise_whitespace (join '' '' texts)\<rparr>)
      in (records @ [summary1], None))"

text \<open>Any other line while a record is open (lines 115 to 139).\<close>

definition continuation_line ::
  "word list \<Rightarrow> string statement_record \<Rightarrow> string statement_record" where
  "continuation_line line_words current =
     (let first_text = word_text (hd line_words);
          timed = fullmatch TIME_RE first_text;
          current1 = (if timed then current\<lparr>Time := first_text\<rparr> else current);
          extra_words = (if timed then tl line_words else line_words);
          (current2, extra_desc) = fold continuation_word extra_words (current1, [])
      in if extra_desc \<noteq> [] then
           (let description = Description current2;
                description1 = (if description \<noteq> [] then description @ '' '' else description);
                description2 = description1 @ join '' '' extra_desc
            in current2\<lparr>Description := normalise_whitespace description2\<rparr>)
         else current2)"

text \<open>The body of the loop over the lines of a page (lines 55 to 139).\<close>

definition process_line :: "nat \<Rightarrow> line \<Rightarrow> scan \<Rightarrow> scan" where
  "process_line page_idx line st =
     (let line_words = sort_key word_x0 (words line);
          texts = map word_text line_words
      in if texts = [] then st
         else
           (let first_text = hd texts
            in if fullmatch DATE_RE first_text then date_line page_idx line_words st
               else if first_text = ''Total'' then total_line page_idx texts st
               else
                 (case snd st of
                    None \<Rightarrow> st
                  | Some current \<Rightarrow> (fst st, Some (continuation_line line_words current)))))"

subsection \<open>Pages and the returned frame\<close>

text \<open>
  One page: its words are sorted by \<^verbatim>\<open>(top, x0)\<close> (Python's sort is stable, as
  \<^const>\<open>sort_key\<close> is), grouped into lines and scanned; a record still open at the end
  of the page is appended.
\<close>

definition scan_page :: "nat \<Rightarrow> word list \<Rightarrow> string statement_record list \<Rightarrow> scan" where
  "scan_page page_idx page_words records =
     (let sorted_words = sort_key (\<lambda>w. (word_top w, word_x0 w)) page_words;
          lines = group_lines sorted_words
      in fold (process_line page_idx) lines (records, None))"

definition process_page ::
  "nat \<Rightarrow> word list \<Rightarrow> string statement_record list \<Rightarrow> string statement_record list" where
  "process_page page_idx page_words records = close_current (scan_page page_idx page_words records)"

text \<open>\<^verbatim>\<open>Series.apply\<close>: the function is applied to each value; an exception ends it.\<close>

fun apply_column :: "('a \<Rightarrow> exn + 'b) \<Rightarrow> 'a list \<Rightarrow> exn + 'b list" where
  "apply_column f [] = Inr []"
| "apply_column f (v # vs) =
     (case f v of
        Inl e \<Rightarrow> Inl e
      | Inr y \<Rightarrow> (case apply_column f vs of Inl e \<Rightarrow> Inl e | Inr ys \<Rightarrow> Inr (y # ys)))"

definition parsed_record ::
  "string statement_record \<Rightarrow> pyfloat option \<Rightarrow> pyfloat option \<Rightarrow> pyfloat option
     \<Rightarrow> pyfloat option statement_record" where
  "parsed_record r w d b =
     \<lparr>Date = Date r, Time = Time r, Description = Description r, Withdrawal = w,
      Deposit = d, Balance = b, Branch = Branch r, Page = Page r\<rparr>"

text \<open>The three amount columns are replaced, one after the other (lines 154 to 159).\<close>

definition parse_columns ::
  "string statement_record list \<Rightarrow> exn + pyfloat option statement_record list" where
  "parse_columns records =
     (case apply_column parse_amount (map Withdrawal records) of
        Inl e \<Rightarrow> Inl e
      | Inr ws \<Rightarrow>
          (case apply_column parse_amount (map Deposit records) of
             Inl e \<Rightarrow> Inl e
           | Inr ds \<Rightarrow>
               (case apply_column parse_amount (map Balance records) of
                  Inl e \<Rightarrow> Inl e
                | Inr bs \<Rightarrow>
                    Inr (map (\<lambda>(r, w, d, b). parsed_record r w d b)
                           (zip records (zip ws (zip ds bs)))))))"

text \<open>
  \<^verbatim>\<open>extract_statement_records\<close>, from the words that \<^verbatim>\<open>extract_words\<close> returns for
  each page of the document, in order; pages are numbered from 1.
\<close>

definition extract_statement_records ::
  "word list list \<Rightarrow> exn + pyfloat option statement_record list" where
  "extract_statement_records pages =
     parse_columns
       (fold (\<lambda>(page_idx, page_words). process_page page_idx page_words)
          (zip [1 ..< Suc (length pages)] pages) [])"

section \<open>Reference descriptions used by the properties\<close>

text \<open>
  A separator is a tilde or a whitespace character; the fields of a string are its
  maximal runs of characters that are not separators.
\<close>

definition is_sep :: "char \<Rightarrow> bool" where
  "is_sep c = (c = CHR ''~'' \<or> isspace c)"

function fields :: "string \<Rightarrow> string list" where
  "fields [] = []"
| "fields (c # cs) =
     (if is_sep c then fields cs
      else (c # takeWhile (\<lambda>x. \<not> is_sep x) cs) # fields (dropWhile (\<lambda>x. \<not> is_sep x) cs))"
  by pat_completeness auto
termination
  by (relation "measure length") (auto simp: length_dropWhile_le less_Suc_eq_le)

text \<open>
  Line grouping as the specification words it: the first word opens a line, the words
  that follow join it as long as their vertical offset is within 1.5 of that first
  word's, and the first word that is not opens the next line.
\<close>

definition near :: "word \<Rightarrow> word \<Rightarrow> bool" where
  "near w v = (\<bar>word_top v - word_top w\<bar> \<le> 3 / 2)"

function single_link :: "word list \<Rightarrow> word list list" where
  "single_link [] = []"
| "single_link (w # ws) = (w # takeWhile (near w) ws) # single_link (dropWhile (near w) ws)"
  by pat_completeness auto
termination
  by (relation "measure length") (auto simp: length_dropWhile_le less_Suc_eq_le)

text \<open>The line that holds a group of words, and a word written by its three values.\<close>

definition line_of :: "word list \<Rightarrow> line" where
  "line_of g = \<lparr>line_top = word_top (hd g), words = g\<rparr>"

definition word_at :: "string \<Rightarrow> rat \<Rightarrow> rat \<Rightarrow> word" where
  "word_at t x y = \<lparr>word_text = t, word_x0 = x, word_top = y\<rparr>"

text \<open>
  The texts of a line from left to right, and the three kinds of line the scan tells
  apart by the first of them.
\<close>

definition line_texts :: "line \<Rightarrow> string list" where
  "line_texts line = map word_text (sort_key word_x0 (words line))"

definition date_led :: "line \<Rightarrow> bool" where
  "date_led line = (line_texts line \<noteq> [] \<and> fullmatch DATE_RE (hd (line_texts line)))"

definition total_led :: "line \<Rightarrow> bool" where
  "total_led line = (line_texts line \<noteq> [] \<and> hd (line_texts line) = ''Total'')"

definition continuation_led :: "line \<Rightarrow> bool" where
  "continuation_led line = (line_texts line \<noteq> [] \<and> \<not> date_led line \<and> \<not> total_led line)"

text \<open>The lines of a page, and the transactions among records: those with a date.\<close>

definition page_lines :: "word list \<Rightarrow> line list" where
  "page_lines page_words = group_lines (sort_key (\<lambda>w. (word_top w, word_x0 w)) page_words)"

definition transactions :: "'a statement_record list \<Rightarrow> 'a statement_record list" where
  "transactions rs = filter (\<lambda>r. Date r \<noteq> []) rs"

text \<open>The invariant of the scan: an open record has a date.\<close>

definition open_dated :: "scan \<Rightarrow> bool" where
  "open_dated st = (case snd st of None \<Rightarrow> True | Some c \<Rightarrow> Date c \<noteq> [])"

text \<open>The amount that \<^const>\<open>parse_amount\<close> returns, and a record with its amounts parsed.\<close>

definition parsed_amount :: "string \<Rightarrow> pyfloat option" where
  "parsed_amount v = (case parse_amount v of Inl e \<Rightarrow> None | Inr a \<Rightarrow> a)"

definition parsed :: "string statement_record \<Rightarrow> pyfloat option statement_record" where
  "parsed r =
     parsed_record r (parsed_amount (Withdrawal r)) (parsed_amount (Deposit r))
       (parsed_amount (Balance r))"

text \<open>
  The end-to-end scenario of the specification, as \<^verbatim>\<open>extract_words\<close> would deliver it
  (one word per blank-separated token, in no particular order), and the same page with
  the description and the reference as single fragments.
\<close>

definition scenario_page :: "word list" where
  "scenario_page =
     [word_at ''Ref:'' 100 312, word_at ''150.00'' 380 301, word_at ''Store'' 140 (601 / 2),
      word_at ''01/02/23'' 40 300, word_at ''03/02/23'' 40 324, word_at ''999'' 125 312,
      word_at ''Grocery'' 100 (601 / 2)]"

definition scenario_page_joined :: "word list" where
  "scenario_page_joined =
     [word_at ''01/02/23'' 40 300, word_at ''Grocery Store'' 100 300, word_at ''150.00'' 380 300,
      word_at ''Ref: 999'' 100 312, word_at ''03/02/23'' 40 324]"

text \<open>The words of a list that fall into a band, and the text of the last word of a list.\<close>

definition band_words :: "(rat \<Rightarrow> bool) \<Rightarrow> word list \<Rightarrow> word list" where
  "band_words band ws = filter (\<lambda>w. band (word_x0 w)) ws"

definition last_text :: "word list \<Rightarrow> string" where
  "last_text ws = (if ws = [] then [] else word_text (last ws))"

definition time_led :: "line \<Rightarrow> bool" where
  "time_led line = (line_texts line \<noteq> [] \<and> fullmatch TIME_RE (hd (line_texts line)))"

section \<open>Whitespace normalisation\<close>

lemma replace_tilde: "replace CHR ''~'' '' '' s = map (\<lambda>c. if c = CHR ''~'' then CHR '' '' else c) s"
  by (induction s) (simp_all add: replace_def)

lemma isspace_space [simp]: "isspace CHR '' ''"
  by (simp add: isspace_def)

lemma not_isspace_tilde [simp]: "\<not> isspace CHR ''~''"
  by (simp add: isspace_def)

lemma isspace_repl: "isspace (if c = CHR ''~'' then CHR '' '' else c) = is_sep c"
  by (simp add: is_sep_def)

lemma rstrip_Nil [simp]: "rstrip [] = []"
  by (simp add: rstrip_def)

lemma rstrip_empty_iff: "rstrip xs = [] \<longleftrightarrow> list_all isspace xs"
  by (simp add: rstrip_def dropWhile_eq_Nil_conv list_all_iff)

lemma rstrip_append:
  "rstrip (xs @ ys) = (if rstrip ys = [] then rstrip xs else xs @ rstrip ys)"
  by (simp add: rstrip_def dropWhile_append dropWhile_eq_Nil_conv)

lemma rstrip_Cons:
  "rstrip (x # xs) = (if rstrip xs = [] \<and> isspace x then [] else x # rstrip xs)"
  using rstrip_append [of "[x]" xs] by (simp add: rstrip_def)

lemma rstrip_no_space: "list_all (\<lambda>c. \<not> isspace c) xs \<Longrightarrow> rstrip xs = xs"
  by (induction xs) (auto simp: rstrip_Cons)

lemma lstrip_sub_spaces: "lstrip (sub_spaces r) = sub_spaces (lstrip r)"
  by (induction r rule: sub_spaces.induct) (simp_all add: lstrip_def)

lemma sub_spaces_append:
  "list_all (\<lambda>c. \<not> isspace c) xs \<Longrightarrow> sub_spaces (xs @ ys) = xs @ sub_spaces ys"
  by (induction xs) simp_all

lemma strip_sub_spaces_space:
  "isspace c \<Longrightarrow> strip (sub_spaces (c # cs)) = strip (sub_spaces cs)"
proof -
  assume c: "isspace c"
  have "strip (sub_spaces (c # cs)) = rstrip (lstrip (sub_spaces (lstrip cs)))"
    using c by (simp add: strip_def lstrip_def)
  also have "\<dots> = rstrip (sub_spaces (lstrip (lstrip cs)))"
    by (simp only: lstrip_sub_spaces)
  also have "\<dots> = rstrip (sub_spaces (lstrip cs))"
    by (simp add: lstrip_def)
  also have "\<dots> = strip (sub_spaces cs)"
    by (simp add: strip_def lstrip_sub_spaces)
  finally show ?thesis .
qed

lemma rstrip_sub_spaces_space:
  "isspace c \<Longrightarrow> rstrip (sub_spaces (c # cs)) =
     (if strip (sub_spaces (c # cs)) = [] then [] else CHR '' '' # strip (sub_spaces (c # cs)))"
proof -
  assume c: "isspace c"
  define Z where "Z = sub_spaces (lstrip cs)"
  have "lstrip Z = Z"
    by (simp add: Z_def lstrip_sub_spaces) (simp add: lstrip_def)
  then have "strip (sub_spaces (c # cs)) = rstrip Z"
    using c by (simp add: strip_def Z_def [symmetric] lstrip_def [symmetric]) (simp add: lstrip_def)
  moreover have "rstrip (sub_spaces (c # cs)) = (if rstrip Z = [] then [] else CHR '' '' # rstrip Z)"
    using c by (simp add: Z_def lstrip_def rstrip_Cons)
  ultimately show ?thesis by simp
qed

lemma fields_nonempty: "f \<in> set (fields s) \<Longrightarrow> f \<noteq> []"
  by (induction s rule: fields.induct) (auto split: if_splits)

lemma list_all_takeWhile: "list_all P (takeWhile P xs)"
  by (induction xs) simp_all

lemma fields_no_sep: "f \<in> set (fields s) \<Longrightarrow> list_all (\<lambda>c. \<not> is_sep c) f"
proof (induction s rule: fields.induct)
  case 1
  then show ?case by simp
next
  case (2 c cs)
  show ?case
  proof (cases "is_sep c")
    case True
    with 2 show ?thesis by simp
  next
    case False
    with 2(3) have "f = c # takeWhile (\<lambda>x. \<not> is_sep x) cs \<or>
        f \<in> set (fields (dropWhile (\<lambda>x. \<not> is_sep x) cs))"
      by simp
    then show ?thesis
    proof
      assume "f = c # takeWhile (\<lambda>x. \<not> is_sep x) cs"
      then show ?thesis using False by (simp add: list_all_takeWhile)
    next
      assume "f \<in> set (fields (dropWhile (\<lambda>x. \<not> is_sep x) cs))"
      then show ?thesis using 2(2) False by simp
    qed
  qed
qed

lemma join_nonempty: "fs \<noteq> [] \<Longrightarrow> \<forall>f \<in> set fs. f \<noteq> [] \<Longrightarrow> join sep fs \<noteq> []"
  by (induction sep fs rule: join.induct) auto

lemma join_Cons: "join sep (x # xs) = (if xs = [] then x else x @ sep @ join sep xs)"
  by (cases xs) simp_all

lemma map_repl_id:
  "list_all (\<lambda>x. \<not> is_sep x) xs \<Longrightarrow> map (\<lambda>c. if c = CHR ''~'' then CHR '' '' else c) xs = xs"
  by (induction xs) (simp_all add: is_sep_def)

lemma strip_sub_spaces_fields:
  "strip (sub_spaces (map (\<lambda>c. if c = CHR ''~'' then CHR '' '' else c) s)) = join '' '' (fields s)"
proof (induction s rule: fields.induct)
  case 1
  show ?case by (simp add: strip_def lstrip_def)
next
  case (2 c cs)
  let ?r = "\<lambda>c. if c = CHR ''~'' then CHR '' '' else c"
  show ?case
  proof (cases "is_sep c")
    case True
    then have "isspace (?r c)" by (simp only: isspace_repl)
    then have "strip (sub_spaces (map ?r (c # cs))) = strip (sub_spaces (map ?r cs))"
      using strip_sub_spaces_space [of "?r c" "map ?r cs"] by simp
    with True 2 show ?thesis by simp
  next
    case False
    define tok where "tok = c # takeWhile (\<lambda>x. \<not> is_sep x) cs"
    define rest where "rest = dropWhile (\<lambda>x. \<not> is_sep x) cs"
    have split: "c # cs = tok @ rest"
      by (simp add: tok_def rest_def)
    have tok_sep: "list_all (\<lambda>x. \<not> is_sep x) tok"
      using False by (simp add: tok_def list_all_takeWhile)
    then have tok_map: "map ?r tok = tok"
      by (rule map_repl_id)
    have tok_sp: "list_all (\<lambda>x. \<not> isspace x) tok"
      using tok_sep by (auto simp: list_all_iff is_sep_def)
    have tok_ne: "tok \<noteq> []" by (simp add: tok_def)
    have IH: "strip (sub_spaces (map ?r rest)) = join '' '' (fields rest)"
      using 2(2) False by (simp add: rest_def)
    have fs: "fields (c # cs) = tok # fields rest"
      using False by (simp add: tok_def rest_def)
    have sub: "sub_spaces (map ?r (c # cs)) = tok @ sub_spaces (map ?r rest)"
      unfolding split using tok_map tok_sp by (simp add: sub_spaces_append)
    have l: "lstrip (tok @ ys) = tok @ ys" for ys
      using tok_sp by (cases tok) (auto simp: lstrip_def tok_def)
    have st: "strip (sub_spaces (map ?r (c # cs))) =
        (if rstrip (sub_spaces (map ?r rest)) = [] then tok
         else tok @ rstrip (sub_spaces (map ?r rest)))"
      unfolding sub strip_def l by (simp add: rstrip_append rstrip_no_space tok_sp)
    show ?thesis
    proof (cases rest)
      case Nil
      then show ?thesis using st fs by simp
    next
      case (Cons d rest')
      have "is_sep d"
        using Cons by (simp add: rest_def dropWhile_eq_Cons_conv)
      then have d: "isspace (?r d)" by (simp only: isspace_repl)
      have r: "rstrip (sub_spaces (map ?r rest)) =
          (if join '' '' (fields rest) = [] then [] else CHR '' '' # join '' '' (fields rest))"
        using rstrip_sub_spaces_space [OF d, of "map ?r rest'"] IH by (simp add: Cons)
      have e: "join '' '' (fields rest) = [] \<longleftrightarrow> fields rest = []"
        using join_nonempty [of "fields rest" "'' ''"] fields_nonempty [of _ rest] by auto
      show ?thesis
        unfolding st r fs join_Cons [of _ tok] by (simp add: e)
    qed
  qed
qed

lemma normalise_whitespace_fields: "normalise_whitespace s = join '' '' (fields s)"
  by (simp add: normalise_whitespace_def replace_tilde strip_sub_spaces_fields)

lemma fields_append:
  "x \<noteq> [] \<Longrightarrow> list_all (\<lambda>c. \<not> is_sep c) x \<Longrightarrow> r = [] \<or> is_sep (hd r) \<Longrightarrow>
     fields (x @ r) = x # fields r"
proof (cases x)
  case Nil
  assume "x \<noteq> []" with Nil show ?thesis by simp
next
  case (Cons c cs)
  assume a: "list_all (\<lambda>c. \<not> is_sep c) x" and r: "r = [] \<or> is_sep (hd r)"
  have t: "takeWhile (\<lambda>x. \<not> is_sep x) (cs @ r) = cs"
    using a r Cons by (cases r) (auto simp: takeWhile_append list_all_iff takeWhile_eq_all_conv)
  have d: "dropWhile (\<lambda>x. \<not> is_sep x) (cs @ r) = r"
    using a r Cons by (cases r) (auto simp: dropWhile_append list_all_iff)
  show ?thesis using a Cons by (simp add: t d)
qed

lemma fields_join:
  "\<forall>f \<in> set fs. f \<noteq> [] \<and> list_all (\<lambda>c. \<not> is_sep c) f \<Longrightarrow> fields (join '' '' fs) = fs"
proof (induction "'' ''" fs rule: join.induct)
  case 1
  show ?case by simp
next
  case (2 x)
  then show ?case using fields_append [of x "[]"] by simp
next
  case (3 x y ys)
  have "fields (x @ CHR '' '' # join '' '' (y # ys)) = x # fields (CHR '' '' # join '' '' (y # ys))"
    using 3(2) by (intro fields_append) (simp_all add: is_sep_def)
  also have "\<dots> = x # fields (join '' '' (y # ys))"
    by (simp add: is_sep_def)
  finally show ?case using 3 by simp
qed

lemma normalise_whitespace_idem: "normalise_whitespace (normalise_whitespace s) = normalise_whitespace s"
  using fields_join [of "fields s"] fields_nonempty [of _ s] fields_no_sep [of _ s]
  by (simp add: normalise_whitespace_fields)

lemma lstrip_rstrip_lstrip: "lstrip (rstrip (lstrip s)) = rstrip (lstrip s)"
proof (cases "lstrip s")
  case Nil
  have "lstrip [] = []" by (simp add: lstrip_def)
  with Nil show ?thesis by simp
next
  case (Cons y ys)
  then have "\<not> isspace y"
    by (simp add: lstrip_def dropWhile_eq_Cons_conv)
  then have "lstrip (rstrip (y # ys)) = rstrip (y # ys)"
    by (simp add: rstrip_Cons lstrip_def)
  then show ?thesis by (simp only: Cons)
qed

lemma rstrip_rstrip: "rstrip (rstrip s) = rstrip s"
  by (simp add: rstrip_def)

lemma strip_strip: "strip (strip s) = strip s"
  by (simp add: strip_def lstrip_rstrip_lstrip rstrip_rstrip)

lemma strip_normalise_whitespace: "strip (normalise_whitespace s) = normalise_whitespace s"
  by (simp add: normalise_whitespace_def strip_strip)

text \<open>
  C8: whitespace normalisation is idempotent; its result is the fields of the input
  (the maximal runs free of tildes and whitespace) joined by single spaces, so every run
  of tildes and whitespace between two fields has become one space; and the result has
  no whitespace left to strip at either end.
\<close>

theorem normalise_whitespace_idempotent:
  "normalise_whitespace (normalise_whitespace s) = normalise_whitespace s \<and>
   normalise_whitespace s = join '' '' (fields s) \<and>
   strip (normalise_whitespace s) = normalise_whitespace s"
  by (simp only: normalise_whitespace_idem strip_normalise_whitespace simp_thms)
     (rule normalise_whitespace_fields)

theorem normalise_whitespace_idempotent_witness:
  "normalise_whitespace (normalise_whitespace '' ~Grocery ~~  Store  '') = ''Grocery Store'' \<and>
   normalise_whitespace '' ~Grocery ~~  Store  '' = ''Grocery Store''"
proof -
  have e: "normalise_whitespace '' ~Grocery ~~  Store  '' = ''Grocery Store''"
    by (simp add: normalise_whitespace_def replace_def strip_def lstrip_def rstrip_def isspace_def)
  show ?thesis
    using normalise_whitespace_idempotent [of "'' ~Grocery ~~  Store  ''", THEN conjunct1]
    unfolding e by simp
qed

section \<open>Amount parsing\<close>

lemma replace_comma: "replace CHR '','' [] s = filter (\<lambda>c. c \<noteq> CHR '','') s"
  by (induction s) (simp_all add: replace_def)

lemma exn_caught: "(e \<noteq> InvalidOperation \<and> e \<noteq> ValueError) = False"
  by (cases e) simp_all

lemma parse_amount_eq:
  "parse_amount v =
     Inr (if strip v = [] then None
          else (case Decimal (filter (\<lambda>c. c \<noteq> CHR '','') (strip v)) of
                  Inl e \<Rightarrow> None
                | Inr d \<Rightarrow> (case float_of_decimal d of Inl e \<Rightarrow> None | Inr f \<Rightarrow> Some f)))"
  by (simp add: parse_amount_def Let_def replace_comma exn_caught split: sum.splits)

lemmas amount_eval =
  parse_amount_def replace_def Decimal_def strip_def lstrip_def rstrip_def isspace_def
  take_sign_def lower_def is_nan_literal_def parse_number_def isdigit_def digits_val_def
  digit_val_def

lemma parse_amount_examples:
  "parse_amount ''1,234.56'' = Inr (Some (Float (123456 / 100)))"
  "parse_amount [] = Inr None"
  "parse_amount ''abc'' = Inr None"
  "parse_amount ''-50.00'' = Inr (Some (Float (- 50)))"
  by (simp_all add: amount_eval)

text \<open>
  C5: amount parsing never raises: the result is absent when the stripped text is empty
  or when the stripped text without its commas is not a decimal literal (or is a
  signalling NaN, which has no float), and the float of that decimal otherwise; stripping the
  text beforehand changes nothing. The four examples of the specification evaluate as
  stated.
\<close>

theorem parse_amount_tolerant:
  "parse_amount v =
     Inr (if strip v = [] then None
          else (case Decimal (filter (\<lambda>c. c \<noteq> CHR '','') (strip v)) of
                  Inl e \<Rightarrow> None
                | Inr d \<Rightarrow> (case float_of_decimal d of Inl e \<Rightarrow> None | Inr f \<Rightarrow> Some f))) \<and>
   parse_amount (strip v) = parse_amount v \<and>
   parse_amount ''1,234.56'' = Inr (Some (Float (123456 / 100))) \<and>
   parse_amount [] = Inr None \<and>
   parse_amount ''abc'' = Inr None \<and>
   parse_amount ''-50.00'' = Inr (Some (Float (- 50)))"
proof -
  have "parse_amount (strip v) = parse_amount v"
    by (simp only: parse_amount_eq [of "strip v"] parse_amount_eq [of v] strip_strip)
  then show ?thesis
    using parse_amount_eq [of v] by (simp only: parse_amount_examples simp_thms)
qed

theorem parse_amount_tolerant_witness:
  "parse_amount ''  12,5x '' = Inr None \<and> parse_amount '' 7,000.5 '' = Inr (Some (Float (14001 / 2)))"
proof -
  have a: "strip ''  12,5x '' = ''12,5x''" "strip '' 7,000.5 '' = ''7,000.5''"
    by (simp_all add: strip_def lstrip_def rstrip_def isspace_def)
  have b: "Decimal ''125x'' = Inl InvalidOperation" "Decimal ''7000.5'' = Inr (Finite False 70005 (- 1))"
    by (simp_all add: amount_eval)
  show ?thesis
    using parse_amount_tolerant [of "''  12,5x ''", THEN conjunct1]
      parse_amount_tolerant [of "'' 7,000.5 ''", THEN conjunct1]
    by (simp add: a b)
qed

section \<open>Line grouping\<close>

lemma group_word_last:
  "group_word v (ls @ [l]) =
     (if \<bar>word_top v - line_top l\<bar> \<le> 3 / 2 then ls @ [l\<lparr>words := words l @ [v]\<rparr>]
      else ls @ [l, \<lparr>line_top = word_top v, words = [v]\<rparr>])"
  by (simp add: group_word_def)

lemma fold_group_word:
  "fold group_word ws (ls @ [l]) =
     ls @ [l\<lparr>words := words l @ takeWhile (\<lambda>v. \<bar>word_top v - line_top l\<bar> \<le> 3 / 2) ws\<rparr>] @
     map line_of (single_link (dropWhile (\<lambda>v. \<bar>word_top v - line_top l\<bar> \<le> 3 / 2) ws))"
proof (induction ws arbitrary: ls l)
  case Nil
  show ?case by simp
next
  case (Cons v ws)
  show ?case
  proof (cases "\<bar>word_top v - line_top l\<bar> \<le> 3 / 2")
    case True
    then show ?thesis
      using Cons [of ls "l\<lparr>words := words l @ [v]\<rparr>"] by (simp add: group_word_last)
  next
    case False
    have n: "near v = (\<lambda>u. \<bar>word_top u - word_top v\<bar> \<le> 3 / 2)"
      by (rule ext) (simp add: near_def)
    have "fold group_word (v # ws) (ls @ [l]) =
        fold group_word ws ((ls @ [l]) @ [\<lparr>line_top = word_top v, words = [v]\<rparr>])"
      using False by (simp add: group_word_last)
    also have "\<dots> = (ls @ [l]) @ [\<lparr>line_top = word_top v, words = v # takeWhile (near v) ws\<rparr>] @
        map line_of (single_link (dropWhile (near v) ws))"
      by (simp only: Cons [of "ls @ [l]"]) (simp add: n)
    finally show ?thesis
      using False by (simp add: line_of_def)
  qed
qed

lemma group_lines_single_link: "group_lines ws = map line_of (single_link ws)"
proof (cases ws)
  case Nil
  then show ?thesis by (simp add: group_lines_def)
next
  case (Cons w ws')
  have n: "near w = (\<lambda>u. \<bar>word_top u - word_top w\<bar> \<le> 3 / 2)"
    by (rule ext) (simp add: near_def)
  have "group_lines ws = fold group_word ws' ([] @ [\<lparr>line_top = word_top w, words = [w]\<rparr>])"
    by (simp add: Cons group_lines_def group_word_def)
  also have "\<dots> = map line_of (single_link (w # ws'))"
    by (simp only: fold_group_word) (simp add: n line_of_def)
  finally show ?thesis by (simp add: Cons)
qed

text \<open>
  C7: for every word sequence (sorted or not) the grouping loop yields exactly the lines
  of the reference single-pass grouping, in which a word joins the current line if and
  only if its vertical offset is within 1.5 of the offset of that line's first word; the
  offset stored with a line is that of its first word.
\<close>

theorem group_lines_is_single_link:
  "map words (group_lines ws) = single_link ws \<and>
   map line_top (group_lines ws) = map (\<lambda>g. word_top (hd g)) (single_link ws)"
  by (simp add: group_lines_single_link line_of_def comp_def)

theorem group_lines_is_single_link_witness:
  "map words (group_lines [word_at ''a'' 40 0, word_at ''b'' 100 1, word_at ''c'' 40 2, word_at ''d'' 100 3]) =
     [[word_at ''a'' 40 0, word_at ''b'' 100 1], [word_at ''c'' 40 2, word_at ''d'' 100 3]]"
  using group_lines_is_single_link
    [of "[word_at ''a'' 40 0, word_at ''b'' 100 1, word_at ''c'' 40 2, word_at ''d'' 100 3]",
     THEN conjunct1]
  by (simp add: near_def word_at_def)

section \<open>The scan of a line, case by case\<close>

lemma fullmatch_DATE_RE_nonempty: "fullmatch DATE_RE t \<Longrightarrow> t \<noteq> []"
  by (auto simp: fullmatch_def DATE_RE_def)

lemma not_fullmatch_DATE_RE_Total: "\<not> fullmatch DATE_RE ''Total''"
  by (simp add: fullmatch_def DATE_RE_def)

lemma hd_line_texts:
  "line_texts line \<noteq> [] \<Longrightarrow> word_text (hd (sort_key word_x0 (words line))) = hd (line_texts line)"
  by (simp add: line_texts_def hd_map)

lemma process_line_empty: "line_texts line = [] \<Longrightarrow> process_line page_idx line st = st"
  by (simp add: process_line_def line_texts_def)

lemma process_line_date:
  "date_led line \<Longrightarrow>
     process_line page_idx line st = date_line page_idx (sort_key word_x0 (words line)) st"
  by (simp add: process_line_def date_led_def line_texts_def Let_def)

lemma process_line_total:
  "total_led line \<Longrightarrow> process_line page_idx line st = total_line page_idx (line_texts line) st"
  by (auto simp: process_line_def total_led_def line_texts_def Let_def not_fullmatch_DATE_RE_Total)

lemma process_line_continuation:
  "continuation_led line \<Longrightarrow>
     process_line page_idx line st =
       (case snd st of
          None \<Rightarrow> st
        | Some current \<Rightarrow>
            (fst st, Some (continuation_line (sort_key word_x0 (words line)) current)))"
  by (auto simp: process_line_def continuation_led_def date_led_def total_led_def
      line_texts_def Let_def)

lemma line_kinds:
  "line_texts line = [] \<or> date_led line \<or> total_led line \<or> continuation_led line"
  by (auto simp: continuation_led_def)

subsection \<open>What the word loops leave alone\<close>

lemma opening_word_keeps:
  "Date (fst (opening_word w s)) = Date (fst s)"
  "Time (fst (opening_word w s)) = Time (fst s)"
  "Page (fst (opening_word w s)) = Page (fst s)"
  by (cases s; simp add: Let_def)+

lemma fold_opening_word_keeps:
  "Date (fst (fold opening_word ws s)) = Date (fst s)"
  "Time (fst (fold opening_word ws s)) = Time (fst s)"
  "Page (fst (fold opening_word ws s)) = Page (fst s)"
  by (induction ws arbitrary: s; simp add: opening_word_keeps)+

lemma continuation_word_keeps:
  "Date (fst (continuation_word w s)) = Date (fst s)"
  "Time (fst (continuation_word w s)) = Time (fst s)"
  "Page (fst (continuation_word w s)) = Page (fst s)"
  by (cases s; simp add: Let_def)+

lemma fold_continuation_word_keeps:
  "Date (fst (fold continuation_word ws s)) = Date (fst s)"
  "Time (fst (fold continuation_word ws s)) = Time (fst s)"
  "Page (fst (fold continuation_word ws s)) = Page (fst s)"
  by (induction ws arbitrary: s; simp add: continuation_word_keeps)+

lemma continuation_word_first_wins:
  "Withdrawal (fst s) \<noteq> [] \<Longrightarrow> Withdrawal (fst (continuation_word w s)) = Withdrawal (fst s)"
  "Deposit (fst s) \<noteq> [] \<Longrightarrow> Deposit (fst (continuation_word w s)) = Deposit (fst s)"
  "Balance (fst s) \<noteq> [] \<Longrightarrow> Balance (fst (continuation_word w s)) = Balance (fst s)"
  by (cases s; simp add: Let_def)+

lemma fold_continuation_word_first_wins:
  "Withdrawal (fst s) \<noteq> [] \<Longrightarrow> Withdrawal (fst (fold continuation_word ws s)) = Withdrawal (fst s)"
  "Deposit (fst s) \<noteq> [] \<Longrightarrow> Deposit (fst (fold continuation_word ws s)) = Deposit (fst s)"
  "Balance (fst s) \<noteq> [] \<Longrightarrow> Balance (fst (fold continuation_word ws s)) = Balance (fst s)"
  by (induction ws arbitrary: s; simp add: continuation_word_first_wins)+

lemma continuation_line_fields:
  "continuation_line lw c =
     (let timed = fullmatch TIME_RE (word_text (hd lw));
          r = fold continuation_word (if timed then tl lw else lw)
                (if timed then c\<lparr>Time := word_text (hd lw)\<rparr> else c, [])
      in if snd r \<noteq> [] then
           (fst r)\<lparr>Description := normalise_whitespace
             ((if Description (fst r) \<noteq> [] then Description (fst r) @ '' '' else Description (fst r))
                @ join '' '' (snd r))\<rparr>
         else fst r)"
  by (simp add: continuation_line_def Let_def split: prod.splits)

lemma continuation_line_Date: "Date (continuation_line lw c) = Date c"
  by (simp add: continuation_line_fields Let_def fold_continuation_word_keeps)

lemma continuation_line_Page: "Page (continuation_line lw c) = Page c"
  by (simp add: continuation_line_fields Let_def fold_continuation_word_keeps)

lemma continuation_line_Time:
  "Time (continuation_line lw c) =
     (if fullmatch TIME_RE (word_text (hd lw)) then word_text (hd lw) else Time c)"
  by (simp add: continuation_line_fields Let_def fold_continuation_word_keeps)

lemma continuation_line_first_wins:
  "Withdrawal c \<noteq> [] \<Longrightarrow> Withdrawal (continuation_line lw c) = Withdrawal c"
  "Deposit c \<noteq> [] \<Longrightarrow> Deposit (continuation_line lw c) = Deposit c"
  "Balance c \<noteq> [] \<Longrightarrow> Balance (continuation_line lw c) = Balance c"
  by (simp_all add: continuation_line_fields Let_def fold_continuation_word_first_wins)

lemma date_line_eq:
  "date_line page_idx lw st =
     (close_current st,
      Some ((fst (fold opening_word (tl lw) (new_record (word_text (hd lw)) page_idx, [])))
        \<lparr>Description := normalise_whitespace (join '' ''
            (snd (fold opening_word (tl lw) (new_record (word_text (hd lw)) page_idx, []))))\<rparr>))"
  by (simp add: date_line_def Let_def split: prod.splits)

lemma date_line_Date:
  "\<exists>c. date_line page_idx lw st = (close_current st, Some c) \<and> Date c = word_text (hd lw) \<and>
       Time c = [] \<and> Page c = page_idx"
  by (simp add: date_line_eq fold_opening_word_keeps new_record_def)

lemma total_line_eq:
  "\<exists>s. total_line page_idx texts st = (close_current st @ [s], None) \<and> Date s = [] \<and>
       Page s = page_idx"
  by (simp add: total_line_def Let_def new_record_def)

section \<open>The returned frame\<close>

lemma parse_amount_parsed: "parse_amount v = Inr (parsed_amount v)"
  by (simp add: parsed_amount_def parse_amount_eq)

lemma apply_column_total: "(\<And>v. f v = Inr (g v)) \<Longrightarrow> apply_column f vs = Inr (map g vs)"
  by (induction vs) simp_all

lemma zip_columns:
  "map (\<lambda>(r, w, d, b). parsed_record r w d b)
     (zip rs (zip (map f (map Withdrawal rs)) (zip (map f (map Deposit rs)) (map f (map Balance rs))))) =
   map (\<lambda>r. parsed_record r (f (Withdrawal r)) (f (Deposit r)) (f (Balance r))) rs"
  by (induction rs) simp_all

lemma parse_columns_total: "parse_columns rs = Inr (map parsed rs)"
proof -
  have "apply_column parse_amount vs = Inr (map parsed_amount vs)" for vs
    by (rule apply_column_total) (rule parse_amount_parsed)
  then show ?thesis
    by (simp only: parse_columns_def sum.case zip_columns) (simp add: parsed_def [abs_def])
qed

lemma transactions_parsed: "length (transactions (map parsed rs)) = length (transactions rs)"
  by (induction rs) (simp_all add: transactions_def parsed_def parsed_record_def)

section \<open>Counting transactions\<close>

lemma transactions_append: "transactions (xs @ ys) = transactions xs @ transactions ys"
  by (simp add: transactions_def)

lemma process_line_count:
  assumes "open_dated st"
  shows "open_dated (process_line page_idx line st) \<and>
    length (transactions (close_current (process_line page_idx line st))) =
      length (transactions (close_current st)) + (if date_led line then 1 else 0)"
proof -
  consider "line_texts line = []" | "date_led line" | "total_led line" "\<not> date_led line"
    | "continuation_led line"
    using line_kinds [of line] by blast
  then show ?thesis
  proof cases
    case 1
    then show ?thesis using assms by (simp add: process_line_empty date_led_def)
  next
    case 2
    obtain c where c: "date_line page_idx (sort_key word_x0 (words line)) st = (close_current st, Some c)"
      "Date c = word_text (hd (sort_key word_x0 (words line)))"
      using date_line_Date by blast
    have "Date c \<noteq> []"
      using 2 c(2) fullmatch_DATE_RE_nonempty [of "hd (line_texts line)"]
      by (simp add: date_led_def hd_line_texts)
    then show ?thesis
      using 2 c(1)
      by (simp add: process_line_date open_dated_def close_current_def transactions_def)
  next
    case 3
    obtain s where s: "total_line page_idx (line_texts line) st = (close_current st @ [s], None)"
      "Date s = []"
      using total_line_eq by blast
    then show ?thesis
      using 3 by (simp add: process_line_total open_dated_def close_current_def transactions_def)
  next
    case 4
    then have n: "\<not> date_led line" by (simp add: continuation_led_def)
    show ?thesis
      using assms n
      by (cases "snd st")
        (simp_all add: process_line_continuation [OF 4] open_dated_def close_current_def
          transactions_def continuation_line_Date)
  qed
qed

lemma fold_process_line_count:
  "open_dated st \<Longrightarrow>
     open_dated (fold (process_line page_idx) lines st) \<and>
     length (transactions (close_current (fold (process_line page_idx) lines st))) =
       length (transactions (close_current st)) + length (filter date_led lines)"
proof (induction lines arbitrary: st)
  case Nil
  then show ?case by simp
next
  case (Cons l ls)
  from process_line_count [OF Cons.prems, of page_idx l]
  have a: "open_dated (process_line page_idx l st)"
    and b: "length (transactions (close_current (process_line page_idx l st))) =
      length (transactions (close_current st)) + (if date_led l then 1 else 0)"
    by simp_all
  from Cons.IH [OF a] b show ?case by simp
qed

lemma process_page_count:
  "length (transactions (process_page page_idx page_words records)) =
     length (transactions records) + length (filter date_led (page_lines page_words))"
  using fold_process_line_count [of "(records, None)" page_idx "page_lines page_words"]
  by (simp add: process_page_def scan_page_def page_lines_def open_dated_def close_current_def)

lemma fold_pages_count:
  "length (transactions
      (fold (\<lambda>(page_idx, page_words). process_page page_idx page_words) (zip is pages) records)) =
   length (transactions records) +
     (\<Sum>page_words \<leftarrow> take (length is) pages. length (filter date_led (page_lines page_words)))"
proof (induction pages arbitrary: "is" records)
  case Nil
  show ?case by simp
next
  case (Cons p ps)
  show ?case
  proof (cases "is")
    case Nil
    then show ?thesis by simp
  next
    case (Cons i is')
    show ?thesis unfolding Cons using Cons.IH [of is' "process_page i p records"]
      by (simp add: process_page_count)
  qed
qed

lemma process_line_date_opens:
  "date_led line \<Longrightarrow>
     \<exists>c. process_line page_idx line st = (close_current st, Some c) \<and>
         Date c = hd (line_texts line) \<and> Page c = page_idx"
  using date_line_Date [of page_idx "sort_key word_x0 (words line)" st]
  by (auto simp: process_line_date date_led_def hd_line_texts)

lemma process_line_no_new_record:
  "\<not> date_led line \<Longrightarrow> \<not> total_led line \<Longrightarrow> fst (process_line page_idx line st) = fst st"
  using line_kinds [of line]
  by (auto simp: process_line_empty process_line_continuation split: option.splits)

text \<open>
  C4: a line led by a date closes the open record, if any, and opens one transaction
  dated by its first text; a line led neither by a date nor by \<open>Total\<close> appends no
  record; and the number of transactions (records with a date) that a page adds to the
  records equals the number of its date-led lines, so that the returned frame holds
  as many transactions as the pages of the document have date-led lines.
\<close>

theorem date_lines_count_transactions:
  "(date_led line \<longrightarrow>
      (\<exists>c. process_line page_idx line st = (close_current st, Some c) \<and>
           Date c = hd (line_texts line) \<and> Page c = page_idx)) \<and>
   (\<not> date_led line \<and> \<not> total_led line \<longrightarrow> fst (process_line page_idx line st) = fst st) \<and>
   length (transactions (process_page page_idx page_words records)) =
     length (transactions records) + length (filter date_led (page_lines page_words)) \<and>
   (\<exists>rows. extract_statement_records pages = Inr rows \<and>
      length (transactions rows) =
        (\<Sum>page_words \<leftarrow> pages. length (filter date_led (page_lines page_words))))"
proof -
  have l: "take (length [1 ..< Suc (length pages)]) pages = pages"
    by (simp del: upt_Suc)
  have "length (transactions (map parsed
      (fold (\<lambda>(page_idx, page_words). process_page page_idx page_words)
         (zip [1 ..< Suc (length pages)] pages) []))) =
    (\<Sum>page_words \<leftarrow> pages. length (filter date_led (page_lines page_words)))"
    by (simp only: transactions_parsed fold_pages_count l) (simp add: transactions_def)
  then have "\<exists>rows. extract_statement_records pages = Inr rows \<and>
      length (transactions rows) =
        (\<Sum>page_words \<leftarrow> pages. length (filter date_led (page_lines page_words)))"
    by (simp add: extract_statement_records_def parse_columns_total)
  then show ?thesis
    using process_line_date_opens [of line page_idx st]
      process_line_no_new_record [of line page_idx st]
      process_page_count [of page_idx page_words records]
    by blast
qed

section \<open>The end-to-end scenario\<close>

lemma scenario_sorted:
  "sort_key (\<lambda>w. (word_top w, word_x0 w)) scenario_page =
     [word_at ''01/02/23'' 40 300, word_at ''Grocery'' 100 (601 / 2), word_at ''Store'' 140 (601 / 2),
      word_at ''150.00'' 380 301, word_at ''Ref:'' 100 312, word_at ''999'' 125 312,
      word_at ''03/02/23'' 40 324]"
  by (simp add: scenario_page_def word_at_def)

lemma scenario_lines:
  "page_lines scenario_page =
     [\<lparr>line_top = 300, words = [word_at ''01/02/23'' 40 300, word_at ''Grocery'' 100 (601 / 2),
         word_at ''Store'' 140 (601 / 2), word_at ''150.00'' 380 301]\<rparr>,
      \<lparr>line_top = 312, words = [word_at ''Ref:'' 100 312, word_at ''999'' 125 312]\<rparr>,
      \<lparr>line_top = 324, words = [word_at ''03/02/23'' 40 324]\<rparr>]"
  unfolding page_lines_def scenario_sorted
  by (simp add: group_lines_def group_word_def word_at_def)

lemmas scan_eval =
  process_line_def date_line_def total_line_def continuation_line_def close_current_def
  new_record_def fullmatch_def DATE_RE_def TIME_RE_def isdigit_def word_at_def
  in_withdrawal_def in_deposit_def in_balance_def WITHDRAWAL_RANGE_def DEPOSIT_RANGE_def
  BALANCE_RANGE_def BRANCH_MIN_X_def normalise_whitespace_def replace_def strip_def
  lstrip_def rstrip_def isspace_def Let_def

lemma scenario_scan:
  "scan_page 1 scenario_page [] =
     ([\<lparr>Date = ''01/02/23'', Time = [], Description = ''Grocery Store Ref: 999'',
        Withdrawal = ''150.00'', Deposit = [], Balance = [], Branch = [], Page = 1\<rparr>],
      Some \<lparr>Date = ''03/02/23'', Time = [], Description = [], Withdrawal = [], Deposit = [],
        Balance = [], Branch = [], Page = 1\<rparr>)"
proof -
  have "scan_page 1 scenario_page [] = fold (process_line 1) (page_lines scenario_page) ([], None)"
    by (simp add: scan_page_def page_lines_def)
  also have "\<dots> = ([\<lparr>Date = ''01/02/23'', Time = [], Description = ''Grocery Store Ref: 999'',
        Withdrawal = ''150.00'', Deposit = [], Balance = [], Branch = [], Page = 1\<rparr>],
      Some \<lparr>Date = ''03/02/23'', Time = [], Description = [], Withdrawal = [], Deposit = [],
        Balance = [], Branch = [], Page = 1\<rparr>)"
    unfolding scenario_lines by (simp add: scan_eval)
  finally show ?thesis .
qed

lemma scenario_joined_scan:
  "scan_page 1 scenario_page_joined [] =
     ([\<lparr>Date = ''01/02/23'', Time = [], Description = ''Grocery Store Ref: 999'',
        Withdrawal = ''150.00'', Deposit = [], Balance = [], Branch = [], Page = 1\<rparr>],
      Some \<lparr>Date = ''03/02/23'', Time = [], Description = [], Withdrawal = [], Deposit = [],
        Balance = [], Branch = [], Page = 1\<rparr>)"
proof -
  have "page_lines scenario_page_joined =
     [\<lparr>line_top = 300, words = [word_at ''01/02/23'' 40 300, word_at ''Grocery Store'' 100 300,
         word_at ''150.00'' 380 300]\<rparr>,
      \<lparr>line_top = 312, words = [word_at ''Ref: 999'' 100 312]\<rparr>,
      \<lparr>line_top = 324, words = [word_at ''03/02/23'' 40 324]\<rparr>]"
    by (simp add: page_lines_def scenario_page_joined_def group_lines_def group_word_def
        word_at_def)
  then have "fold (process_line 1) (page_lines scenario_page_joined) ([], None) =
     ([\<lparr>Date = ''01/02/23'', Time = [], Description = ''Grocery Store Ref: 999'',
        Withdrawal = ''150.00'', Deposit = [], Balance = [], Branch = [], Page = 1\<rparr>],
      Some \<lparr>Date = ''03/02/23'', Time = [], Description = [], Withdrawal = [], Deposit = [],
        Balance = [], Branch = [], Page = 1\<rparr>)"
    by (simp add: scan_eval)
  then show ?thesis
    by (simp add: scan_page_def page_lines_def)
qed

lemma extract_one_page:
  "extract_statement_records [page_words] = parse_columns (process_page 1 page_words [])"
  by (simp add: extract_statement_records_def)

lemma scenario_records:
  "process_page 1 scenario_page [] =
     [\<lparr>Date = ''01/02/23'', Time = [], Description = ''Grocery Store Ref: 999'',
        Withdrawal = ''150.00'', Deposit = [], Balance = [], Branch = [], Page = 1\<rparr>,
      \<lparr>Date = ''03/02/23'', Time = [], Description = [], Withdrawal = [], Deposit = [],
        Balance = [], Branch = [], Page = 1\<rparr>]"
  "process_page 1 scenario_page_joined [] = process_page 1 scenario_page []"
  unfolding process_page_def scenario_scan scenario_joined_scan
  by (simp_all add: close_current_def)

lemma scenario_amounts:
  "parsed_amount ''150.00'' = Some (Float 150)" "parsed_amount [] = None"
  by (simp_all add: parsed_amount_def amount_eval)

text \<open>
  C1: on the scenario page (date line with \<open>Grocery Store\<close> from offset 100 and
  \<open>150.00\<close> at offset 380, continuation line \<open>Ref: 999\<close> from offset 100, then a
  new date line) the first record of the returned frame is the transaction of
  \<open>01/02/23\<close> with description \<open>Grocery Store Ref: 999\<close>, withdrawal 150 and no
  balance; it is followed by the transaction that the second date line opened.
\<close>

theorem scenario_grocery_store:
  "extract_statement_records [scenario_page] =
     Inr [\<lparr>Date = ''01/02/23'', Time = [], Description = ''Grocery Store Ref: 999'',
            Withdrawal = Some (Float 150), Deposit = None, Balance = None, Branch = [],
            Page = 1\<rparr>,
          \<lparr>Date = ''03/02/23'', Time = [], Description = [], Withdrawal = None,
            Deposit = None, Balance = None, Branch = [], Page = 1\<rparr>] \<and>
   extract_statement_records [scenario_page_joined] = extract_statement_records [scenario_page]"
  unfolding extract_one_page scenario_records parse_columns_total
  by (simp add: parsed_def parsed_record_def scenario_amounts)

section \<open>Counting transactions: an instance\<close>

lemma scenario_line_kinds:
  "date_led \<lparr>line_top = 300, words = [word_at ''01/02/23'' 40 300, word_at ''Grocery'' 100 (601 / 2),
         word_at ''Store'' 140 (601 / 2), word_at ''150.00'' 380 301]\<rparr>"
  "hd (line_texts \<lparr>line_top = 300, words = [word_at ''01/02/23'' 40 300, word_at ''Grocery'' 100 (601 / 2),
         word_at ''Store'' 140 (601 / 2), word_at ''150.00'' 380 301]\<rparr>) = ''01/02/23''"
  "\<not> date_led \<lparr>line_top = 312, words = [word_at ''Ref:'' 100 312, word_at ''999'' 125 312]\<rparr>"
  "\<not> total_led \<lparr>line_top = 312, words = [word_at ''Ref:'' 100 312, word_at ''999'' 125 312]\<rparr>"
  "date_led \<lparr>line_top = 324, words = [word_at ''03/02/23'' 40 324]\<rparr>"
  by (simp_all add: date_led_def total_led_def line_texts_def fullmatch_def DATE_RE_def
      isdigit_def word_at_def)

theorem date_lines_count_transactions_witness:
  "date_led \<lparr>line_top = 300, words = [word_at ''01/02/23'' 40 300, word_at ''Grocery'' 100 (601 / 2),
         word_at ''Store'' 140 (601 / 2), word_at ''150.00'' 380 301]\<rparr> \<and>
   (\<exists>c. process_line 1 \<lparr>line_top = 300, words = [word_at ''01/02/23'' 40 300,
            word_at ''Grocery'' 100 (601 / 2), word_at ''Store'' 140 (601 / 2),
            word_at ''150.00'' 380 301]\<rparr> ([], None) = ([], Some c) \<and>
        Date c = ''01/02/23'' \<and> Page c = 1) \<and>
   \<not> date_led \<lparr>line_top = 312, words = [word_at ''Ref:'' 100 312, word_at ''999'' 125 312]\<rparr> \<and>
   \<not> total_led \<lparr>line_top = 312, words = [word_at ''Ref:'' 100 312, word_at ''999'' 125 312]\<rparr> \<and>
   fst (process_line 1 \<lparr>line_top = 312, words = [word_at ''Ref:'' 100 312, word_at ''999'' 125 312]\<rparr>
          ([], Some (new_record ''01/02/23'' 1))) = [] \<and>
   length (transactions (process_page 1 scenario_page [])) = 2 \<and>
   (\<exists>rows. extract_statement_records [scenario_page] = Inr rows \<and> length (transactions rows) = 2)"
  using
    date_lines_count_transactions
      [of "\<lparr>line_top = 300, words = [word_at ''01/02/23'' 40 300, word_at ''Grocery'' 100 (601 / 2),
             word_at ''Store'' 140 (601 / 2), word_at ''150.00'' 380 301]\<rparr>"
          1 "([], None)" scenario_page "[]" "[scenario_page]"]
    date_lines_count_transactions
      [of "\<lparr>line_top = 312, words = [word_at ''Ref:'' 100 312, word_at ''999'' 125 312]\<rparr>"
          1 "([], Some (new_record ''01/02/23'' 1))" scenario_page "[]" "[scenario_page]"]
  by (simp add: scenario_lines scenario_line_kinds close_current_def transactions_def
      numeral_2_eq_2)

section \<open>Amount fields on continuation lines\<close>

lemma process_line_first_wins:
  assumes "\<not> date_led line" and "\<not> total_led line"
  shows "\<exists>c'. process_line page_idx line (rs, Some c) = (rs, Some c') \<and>
    (Withdrawal c \<noteq> [] \<longrightarrow> Withdrawal c' = Withdrawal c) \<and>
    (Deposit c \<noteq> [] \<longrightarrow> Deposit c' = Deposit c) \<and>
    (Balance c \<noteq> [] \<longrightarrow> Balance c' = Balance c)"
proof (cases "line_texts line = []")
  case True
  then show ?thesis by (simp add: process_line_empty)
next
  case False
  with assms have "continuation_led line" by (simp add: continuation_led_def)
  then show ?thesis
    by (simp add: process_line_continuation continuation_line_first_wins)
qed

text \<open>
  C2: while the lines that follow are led neither by a date nor by \<open>Total\<close>, the
  record stays open, no record is appended, and each of Withdrawal, Deposit and Balance
  that is non-empty keeps its value, whatever the words of those lines are.
\<close>

theorem continuation_first_value_wins:
  "list_all (\<lambda>l. \<not> date_led l \<and> \<not> total_led l) lines \<Longrightarrow>
     \<exists>c'. fold (process_line page_idx) lines (rs, Some c) = (rs, Some c') \<and>
       (Withdrawal c \<noteq> [] \<longrightarrow> Withdrawal c' = Withdrawal c) \<and>
       (Deposit c \<noteq> [] \<longrightarrow> Deposit c' = Deposit c) \<and>
       (Balance c \<noteq> [] \<longrightarrow> Balance c' = Balance c)"
proof (induction lines arbitrary: c)
  case Nil
  show ?case by simp
next
  case (Cons l ls)
  from Cons.prems have l: "\<not> date_led l" "\<not> total_led l"
    and ls: "list_all (\<lambda>l. \<not> date_led l \<and> \<not> total_led l) ls"
    by simp_all
  from process_line_first_wins [OF l, of page_idx rs c]
  obtain c1 where c1: "process_line page_idx l (rs, Some c) = (rs, Some c1)"
    "Withdrawal c \<noteq> [] \<longrightarrow> Withdrawal c1 = Withdrawal c"
    "Deposit c \<noteq> [] \<longrightarrow> Deposit c1 = Deposit c"
    "Balance c \<noteq> [] \<longrightarrow> Balance c1 = Balance c"
    by blast
  from Cons.IH [OF ls, of c1]
  obtain c' where c': "fold (process_line page_idx) ls (rs, Some c1) = (rs, Some c')"
    "Withdrawal c1 \<noteq> [] \<longrightarrow> Withdrawal c' = Withdrawal c1"
    "Deposit c1 \<noteq> [] \<longrightarrow> Deposit c' = Deposit c1"
    "Balance c1 \<noteq> [] \<longrightarrow> Balance c' = Balance c1"
    by blast
  have "fold (process_line page_idx) (l # ls) (rs, Some c) = (rs, Some c')"
    by (simp add: c1(1) c'(1))
  moreover have "Withdrawal c \<noteq> [] \<longrightarrow> Withdrawal c' = Withdrawal c"
    using c1(2) c'(2) by auto
  moreover have "Deposit c \<noteq> [] \<longrightarrow> Deposit c' = Deposit c"
    using c1(3) c'(3) by auto
  moreover have "Balance c \<noteq> [] \<longrightarrow> Balance c' = Balance c"
    using c1(4) c'(4) by auto
  ultimately show ?case by blast
qed

theorem continuation_first_value_wins_witness:
  "list_all (\<lambda>l. \<not> date_led l \<and> \<not> total_led l)
     [\<lparr>line_top = 312, words = [word_at ''999.99'' 380 312, word_at ''7.00'' 450 312]\<rparr>,
      \<lparr>line_top = 324, words = [word_at ''1.00'' 400 324, word_at ''8.00'' 450 324]\<rparr>] \<and>
   Withdrawal ((new_record ''01/02/23'' 1)\<lparr>Withdrawal := ''150.00''\<rparr>) \<noteq> [] \<and>
   (\<exists>c'. fold (process_line 1)
       [\<lparr>line_top = 312, words = [word_at ''999.99'' 380 312, word_at ''7.00'' 450 312]\<rparr>,
        \<lparr>line_top = 324, words = [word_at ''1.00'' 400 324, word_at ''8.00'' 450 324]\<rparr>]
       ([], Some ((new_record ''01/02/23'' 1)\<lparr>Withdrawal := ''150.00''\<rparr>)) = ([], Some c') \<and>
     Withdrawal c' = ''150.00'')"
proof -
  have k: "list_all (\<lambda>l. \<not> date_led l \<and> \<not> total_led l)
     [\<lparr>line_top = 312, words = [word_at ''999.99'' 380 312, word_at ''7.00'' 450 312]\<rparr>,
      \<lparr>line_top = 324, words = [word_at ''1.00'' 400 324, word_at ''8.00'' 450 324]\<rparr>]"
    by (simp add: date_led_def total_led_def line_texts_def fullmatch_def DATE_RE_def
        isdigit_def word_at_def)
  have w: "Withdrawal ((new_record ''01/02/23'' 1)\<lparr>Withdrawal := ''150.00''\<rparr>) = ''150.00''"
    by simp
  from continuation_first_value_wins [OF k, of 1 "[]"
      "(new_record ''01/02/23'' 1)\<lparr>Withdrawal := ''150.00''\<rparr>"]
  obtain c' where "fold (process_line 1)
       [\<lparr>line_top = 312, words = [word_at ''999.99'' 380 312, word_at ''7.00'' 450 312]\<rparr>,
        \<lparr>line_top = 324, words = [word_at ''1.00'' 400 324, word_at ''8.00'' 450 324]\<rparr>]
       ([], Some ((new_record ''01/02/23'' 1)\<lparr>Withdrawal := ''150.00''\<rparr>)) = ([], Some c')"
    and "Withdrawal c' = ''150.00''"
    unfolding w by auto
  with k w show ?thesis by (intro conjI exI [of _ c']) simp_all
qed

section \<open>Amount fields on the opening line\<close>

lemma bands_disjoint:
  "in_deposit x \<Longrightarrow> \<not> in_withdrawal x"
  "in_balance x \<Longrightarrow> \<not> in_withdrawal x"
  "in_balance x \<Longrightarrow> \<not> in_deposit x"
  by (simp_all add: in_withdrawal_def in_deposit_def in_balance_def WITHDRAWAL_RANGE_def
      DEPOSIT_RANGE_def BALANCE_RANGE_def)

lemma opening_word_amounts:
  "Withdrawal (fst (opening_word w s)) =
     (if in_withdrawal (word_x0 w) then word_text w else Withdrawal (fst s))"
  "Deposit (fst (opening_word w s)) =
     (if in_deposit (word_x0 w) then word_text w else Deposit (fst s))"
  "Balance (fst (opening_word w s)) =
     (if in_balance (word_x0 w) then word_text w else Balance (fst s))"
  by (cases s; auto simp: Let_def bands_disjoint)+

lemma fold_opening_word_amounts:
  "Withdrawal (fst (fold opening_word ws s)) =
     (if band_words in_withdrawal ws = [] then Withdrawal (fst s)
      else word_text (last (band_words in_withdrawal ws)))"
  "Deposit (fst (fold opening_word ws s)) =
     (if band_words in_deposit ws = [] then Deposit (fst s)
      else word_text (last (band_words in_deposit ws)))"
  "Balance (fst (fold opening_word ws s)) =
     (if band_words in_balance ws = [] then Balance (fst s)
      else word_text (last (band_words in_balance ws)))"
  by (induction ws rule: rev_induct; simp add: opening_word_amounts band_words_def)+

text \<open>
  C9: on a line led by a date the new record's Withdrawal, Deposit and Balance are each
  the text of the last word, from left to right after the date, whose offset lies in the
  band of that field, and empty when there is no such word: a later word of the same
  band overwrites an earlier one.
\<close>

theorem opening_line_last_value_wins:
  "date_led line \<Longrightarrow>
     \<exists>c. snd (process_line page_idx line st) = Some c \<and>
       Withdrawal c = last_text (band_words in_withdrawal (tl (sort_key word_x0 (words line)))) \<and>
       Deposit c = last_text (band_words in_deposit (tl (sort_key word_x0 (words line)))) \<and>
       Balance c = last_text (band_words in_balance (tl (sort_key word_x0 (words line))))"
  by (simp add: process_line_date date_line_eq fold_opening_word_amounts last_text_def
      new_record_def)

theorem opening_line_last_value_wins_witness:
  "date_led \<lparr>line_top = 300, words = [word_at ''01/02/23'' 40 300, word_at ''150.00'' 350 300,
       word_at ''275.00'' 400 300]\<rparr> \<and>
   (\<exists>c. snd (process_line 1 \<lparr>line_top = 300, words = [word_at ''01/02/23'' 40 300,
            word_at ''150.00'' 350 300, word_at ''275.00'' 400 300]\<rparr> ([], None)) = Some c \<and>
        Withdrawal c = ''275.00'' \<and> Deposit c = [] \<and> Balance c = [])"
proof -
  have d: "date_led \<lparr>line_top = 300, words = [word_at ''01/02/23'' 40 300,
      word_at ''150.00'' 350 300, word_at ''275.00'' 400 300]\<rparr>"
    by (simp add: date_led_def line_texts_def fullmatch_def DATE_RE_def isdigit_def word_at_def)
  from opening_line_last_value_wins [OF d, of 1 "([], None)"] d show ?thesis
    by (simp add: last_text_def band_words_def word_at_def in_withdrawal_def in_deposit_def
        in_balance_def WITHDRAWAL_RANGE_def DEPOSIT_RANGE_def BALANCE_RANGE_def)
qed

section \<open>The time of a transaction\<close>

lemma fullmatch_TIME_RE_not_date: "fullmatch TIME_RE t \<Longrightarrow> \<not> fullmatch DATE_RE t"
  by (auto simp: fullmatch_def TIME_RE_def DATE_RE_def dest!: list_all2_lengthD)

lemma not_fullmatch_TIME_RE_Total: "\<not> fullmatch TIME_RE ''Total''"
  by (simp add: fullmatch_def TIME_RE_def isdigit_def)

lemma time_led_continuation: "time_led line \<Longrightarrow> continuation_led line"
  using not_fullmatch_TIME_RE_Total
  by (auto simp: time_led_def continuation_led_def date_led_def total_led_def
      dest: fullmatch_TIME_RE_not_date)

lemma process_line_time:
  assumes "time_led line"
  shows "\<exists>c'. process_line page_idx line (rs, Some c) = (rs, Some c') \<and>
    Time c' = hd (line_texts line)"
proof -
  have "line_texts line \<noteq> []" "fullmatch TIME_RE (hd (line_texts line))"
    using assms by (simp_all add: time_led_def)
  then show ?thesis
    by (simp add: process_line_continuation [OF time_led_continuation [OF assms]]
        continuation_line_Time hd_line_texts)
qed

text \<open>
  C10: a line whose first text matches the time pattern, met while a record is open, is a
  continuation line and sets the record's Time to that text whatever the Time was; of two
  such lines for the same record the later one decides the Time.
\<close>

theorem continuation_time_last_wins:
  "(time_led line \<longrightarrow>
      (\<exists>c'. process_line page_idx line (rs, Some c) = (rs, Some c') \<and>
            Time c' = hd (line_texts line))) \<and>
   (time_led line1 \<and> time_led line2 \<longrightarrow>
      (\<exists>c'. process_line page_idx line2 (process_line page_idx line1 (rs, Some c)) = (rs, Some c') \<and>
            Time c' = hd (line_texts line2)))"
proof (intro conjI impI)
  assume "time_led line"
  then show "\<exists>c'. process_line page_idx line (rs, Some c) = (rs, Some c') \<and>
      Time c' = hd (line_texts line)"
    by (rule process_line_time)
next
  assume a: "time_led line1 \<and> time_led line2"
  then obtain c1 where "process_line page_idx line1 (rs, Some c) = (rs, Some c1)"
    using process_line_time [of line1 page_idx rs c] by blast
  then show "\<exists>c'. process_line page_idx line2 (process_line page_idx line1 (rs, Some c)) =
      (rs, Some c') \<and> Time c' = hd (line_texts line2)"
    using a process_line_time [of line2 page_idx rs c1] by simp
qed

theorem continuation_time_last_wins_witness:
  "time_led \<lparr>line_top = 312, words = [word_at ''09:15'' 40 312, word_at ''ATM'' 100 312]\<rparr> \<and>
   time_led \<lparr>line_top = 324, words = [word_at ''17:40'' 40 324]\<rparr> \<and>
   (\<exists>c'. process_line 1 \<lparr>line_top = 324, words = [word_at ''17:40'' 40 324]\<rparr>
           (process_line 1
              \<lparr>line_top = 312, words = [word_at ''09:15'' 40 312, word_at ''ATM'' 100 312]\<rparr>
              ([], Some (new_record ''01/02/23'' 1))) = ([], Some c') \<and>
         Time c' = ''17:40'')"
proof -
  have t: "time_led \<lparr>line_top = 312, words = [word_at ''09:15'' 40 312, word_at ''ATM'' 100 312]\<rparr>"
    "time_led \<lparr>line_top = 324, words = [word_at ''17:40'' 40 324]\<rparr>"
    by (simp_all add: time_led_def line_texts_def fullmatch_def TIME_RE_def isdigit_def
        word_at_def)
  have h: "hd (line_texts \<lparr>line_top = 324, words = [word_at ''17:40'' 40 324]\<rparr>) = ''17:40''"
    by (simp add: line_texts_def word_at_def)
  from continuation_time_last_wins
    [of "\<lparr>line_top = 324, words = [word_at ''17:40'' 40 324]\<rparr>" 1 "[]" "new_record ''01/02/23'' 1"
       "\<lparr>line_top = 312, words = [word_at ''09:15'' 40 312, word_at ''ATM'' 100 312]\<rparr>"
       "\<lparr>line_top = 324, words = [word_at ''17:40'' 40 324]\<rparr>"]
  show ?thesis using t unfolding h by simp
qed

section \<open>Branch text and the Balance band\<close>

text \<open>
  The Balance band ends at 540, beyond the branch threshold 530, and is tested first: a
  word of a date-led line at offset 535 is the record's Balance and leaves Branch empty.
\<close>

theorem branch_threshold_counterexample:
  "word_x0 (word_at ''KL'' 535 300) > BRANCH_MIN_X \<and>
   process_line 1 \<lparr>line_top = 300, words = [word_at ''01/02/23'' 40 300, word_at ''KL'' 535 300]\<rparr>
       ([], None) =
     ([], Some \<lparr>Date = ''01/02/23'', Time = [], Description = [], Withdrawal = [], Deposit = [],
        Balance = ''KL'', Branch = [], Page = 1\<rparr>)"
  by (simp add: scan_eval)

lemma beyond_balance_band:
  assumes "word_x0 w > snd BALANCE_RANGE"
  shows "\<not> in_withdrawal (word_x0 w)" "\<not> in_deposit (word_x0 w)" "\<not> in_balance (word_x0 w)"
    "word_x0 w > BRANCH_MIN_X"
  using assms
  by (simp_all add: in_withdrawal_def in_deposit_def in_balance_def WITHDRAWAL_RANGE_def
      DEPOSIT_RANGE_def BALANCE_RANGE_def BRANCH_MIN_X_def)

lemma between_threshold_and_band_end:
  assumes "BRANCH_MIN_X < word_x0 w" and "word_x0 w \<le> snd BALANCE_RANGE"
  shows "\<not> in_withdrawal (word_x0 w)" "\<not> in_deposit (word_x0 w)" "in_balance (word_x0 w)"
  using assms
  by (simp_all add: in_withdrawal_def in_deposit_def in_balance_def WITHDRAWAL_RANGE_def
      DEPOSIT_RANGE_def BALANCE_RANGE_def BRANCH_MIN_X_def)

text \<open>
  C3, amended: a word beyond the Balance band (offset above 540) is appended to Branch,
  joined by a space and stripped, on a date-led line as on a continuation line, and
  changes nothing else. A word above the threshold 530 but within the Balance band is
  the Balance on a date-led line; on a continuation line it is the Balance when
  that is still empty and is appended to Branch otherwise.
\<close>

theorem branch_beyond_balance_band:
  "(word_x0 w > snd BALANCE_RANGE \<longrightarrow>
      opening_word w (c, ds) = (c\<lparr>Branch := strip (Branch c @ '' '' @ word_text w)\<rparr>, ds) \<and>
      continuation_word w (c, ds) = (c\<lparr>Branch := strip (Branch c @ '' '' @ word_text w)\<rparr>, ds)) \<and>
   (BRANCH_MIN_X < word_x0 w \<and> word_x0 w \<le> snd BALANCE_RANGE \<longrightarrow>
      opening_word w (c, ds) = (c\<lparr>Balance := word_text w\<rparr>, ds) \<and>
      continuation_word w (c, ds) =
        (if Balance c = [] then (c\<lparr>Balance := word_text w\<rparr>, ds)
         else (c\<lparr>Branch := strip (Branch c @ '' '' @ word_text w)\<rparr>, ds)))"
  by (simp add: Let_def beyond_balance_band between_threshold_and_band_end)

theorem branch_beyond_balance_band_witness:
  "word_x0 (word_at ''KL'' 545 300) > snd BALANCE_RANGE \<and>
   opening_word (word_at ''KL'' 545 300) ((new_record ''01/02/23'' 1)\<lparr>Branch := ''Main''\<rparr>, []) =
     ((new_record ''01/02/23'' 1)\<lparr>Branch := ''Main KL''\<rparr>, []) \<and>
   BRANCH_MIN_X < word_x0 (word_at ''KL'' 535 300) \<and>
   word_x0 (word_at ''KL'' 535 300) \<le> snd BALANCE_RANGE \<and>
   continuation_word (word_at ''KL'' 535 300)
       ((new_record ''01/02/23'' 1)\<lparr>Balance := ''9.00'', Branch := ''Main''\<rparr>, []) =
     ((new_record ''01/02/23'' 1)\<lparr>Balance := ''9.00'', Branch := ''Main KL''\<rparr>, [])"
proof -
  have a: "word_x0 (word_at ''KL'' 545 300) > snd BALANCE_RANGE"
    "BRANCH_MIN_X < word_x0 (word_at ''KL'' 535 300)"
    "word_x0 (word_at ''KL'' 535 300) \<le> snd BALANCE_RANGE"
    by (simp_all add: word_at_def BALANCE_RANGE_def BRANCH_MIN_X_def)
  have s: "strip ''Main KL'' = ''Main KL''"
    by (simp add: strip_def lstrip_def rstrip_def isspace_def)
  have t: "word_text (word_at ''KL'' 545 300) = ''KL''" "word_text (word_at ''KL'' 535 300) = ''KL''"
    by (simp_all add: word_at_def)
  from branch_beyond_balance_band
    [of "word_at ''KL'' 545 300" "(new_record ''01/02/23'' 1)\<lparr>Branch := ''Main''\<rparr>" "[]"]
  have 1: "opening_word (word_at ''KL'' 545 300) ((new_record ''01/02/23'' 1)\<lparr>Branch := ''Main''\<rparr>, []) =
     ((new_record ''01/02/23'' 1)\<lparr>Branch := ''Main KL''\<rparr>, [])"
    using a(1) by (simp add: t s new_record_def del: opening_word.simps)
  from branch_beyond_balance_band
    [of "word_at ''KL'' 535 300"
       "(new_record ''01/02/23'' 1)\<lparr>Balance := ''9.00'', Branch := ''Main''\<rparr>" "[]"]
  have 2: "continuation_word (word_at ''KL'' 535 300)
       ((new_record ''01/02/23'' 1)\<lparr>Balance := ''9.00'', Branch := ''Main''\<rparr>, []) =
     ((new_record ''01/02/23'' 1)\<lparr>Balance := ''9.00'', Branch := ''Main KL''\<rparr>, [])"
    using a(2,3) by (simp add: t s new_record_def del: continuation_word.simps)
  from a 1 2 show ?thesis by (simp only: simp_thms)
qed

section \<open>Summary lines\<close>

lemma total_line_withdrawal:
  "total_line page_idx (''Total'' # ''Withdrawal'' # count # amount # rest) st =
     (close_current st @
        [\<lparr>Date = [], Time = [], Description = ''Total Withdrawal (count: '' @ count @ '')'',
          Withdrawal = amount, Deposit = [], Balance = [], Branch = [], Page = page_idx\<rparr>],
      None)"
  by (simp add: total_line_def new_record_def Let_def)

text \<open>
  C6: a line whose texts from left to right are \<open>Total\<close>, \<open>Withdrawal\<close>, \<open>12\<close>,
  \<open>4500.00\<close> appends, after the open record if there is one, a record with empty
  date, description \<open>Total Withdrawal (count: 12)\<close>, Withdrawal text \<open>4500.00\<close> and
  empty Deposit, and leaves no record open; in the returned frame these amounts are 4500
  and absent.
\<close>

theorem total_withdrawal_summary:
  "line_texts line = [''Total'', ''Withdrawal'', ''12'', ''4500.00''] \<Longrightarrow>
     process_line page_idx line st =
       (close_current st @
          [\<lparr>Date = [], Time = [], Description = ''Total Withdrawal (count: 12)'',
            Withdrawal = ''4500.00'', Deposit = [], Balance = [], Branch = [], Page = page_idx\<rparr>],
        None) \<and>
     parse_amount ''4500.00'' = Inr (Some (Float 4500)) \<and> parse_amount [] = Inr None"
proof -
  assume t: "line_texts line = [''Total'', ''Withdrawal'', ''12'', ''4500.00'']"
  then have "total_led line" by (simp add: total_led_def)
  then have "process_line page_idx line st =
      total_line page_idx [''Total'', ''Withdrawal'', ''12'', ''4500.00''] st"
    by (simp add: process_line_total t)
  moreover have "parse_amount ''4500.00'' = Inr (Some (Float 4500))" "parse_amount [] = Inr None"
    by (simp_all add: amount_eval)
  ultimately show ?thesis
    by (simp only: total_line_withdrawal) simp
qed

theorem total_withdrawal_summary_witness:
  "line_texts \<lparr>line_top = 700, words = [word_at ''4500.00'' 380 700, word_at ''Total'' 40 700,
       word_at ''12'' 200 700, word_at ''Withdrawal'' 80 700]\<rparr> =
     [''Total'', ''Withdrawal'', ''12'', ''4500.00''] \<and>
   process_line 3 \<lparr>line_top = 700, words = [word_at ''4500.00'' 380 700, word_at ''Total'' 40 700,
       word_at ''12'' 200 700, word_at ''Withdrawal'' 80 700]\<rparr>
       ([], Some (new_record ''01/02/23'' 3)) =
     ([new_record ''01/02/23'' 3,
       \<lparr>Date = [], Time = [], Description = ''Total Withdrawal (count: 12)'',
         Withdrawal = ''4500.00'', Deposit = [], Balance = [], Branch = [], Page = 3\<rparr>],
      None)"
proof -
  have t: "line_texts \<lparr>line_top = 700, words = [word_at ''4500.00'' 380 700, word_at ''Total'' 40 700,
       word_at ''12'' 200 700, word_at ''Withdrawal'' 80 700]\<rparr> =
     [''Total'', ''Withdrawal'', ''12'', ''4500.00'']"
    by (simp add: line_texts_def word_at_def)
  from total_withdrawal_summary [OF t, of 3 "([], Some (new_record ''01/02/23'' 3))"] t
  show ?thesis by (simp add: close_current_def)
qed

end
